theory Spec2Isabelle
  imports Main "HOL-Library.Word"
begin

section \<open>Helpers.cpp: the token classifier\<close>

text \<open>
  \<^verbatim>\<open>isspace\<close> and \<open>isdigit\<close> of \<^verbatim>\<open><ctype.h>\<close> in the "C" locale: the six
  white-space characters (space, \<^verbatim>\<open>\t \n \v \f \r\<close>) and the ten decimal digits.
\<close>

definition isspace :: "char \<Rightarrow> bool" where
  "isspace c = (c = CHR '' '' \<or> c = CHR 0x09 \<or> c = CHR 0x0A \<or> c = CHR 0x0B
      \<or> c = CHR 0x0C \<or> c = CHR 0x0D)"

definition isdigit :: "char \<Rightarrow> bool" where
  "isdigit c = (c = CHR ''0'' \<or> c = CHR ''1'' \<or> c = CHR ''2'' \<or> c = CHR ''3''
      \<or> c = CHR ''4'' \<or> c = CHR ''5'' \<or> c = CHR ''6'' \<or> c = CHR ''7''
      \<or> c = CHR ''8'' \<or> c = CHR ''9'')"

text \<open>
  \<open>Helpers::is_number\<close> is three loops over one iterator. Each loop is a function of the
  characters that the iterator has not passed yet. The counters \<open>num_read\<close> and
  \<open>num_radix\<close> are C++ \<open>int\<close>s that grow by one per character read, so they stay
  far from \<open>INT_MAX\<close> on every token shorter than 2 GiB; they are modelled as \<open>int\<close>.
\<close>

text \<open>First loop: step over leading white space.\<close>

fun skip_leading :: "string \<Rightarrow> string" where
  "skip_leading [] = []"
| "skip_leading (c # cs) = (if \<not> isspace c then c # cs else skip_leading cs)"

text \<open>
  Second loop. \<open>None\<close> is the early \<open>return false\<close>; \<open>Some (rest, num_read)\<close> is
  the loop left normally (at white space or at the end) with the iterator before \<open>rest\<close>.
\<close>

fun number_loop :: "string \<Rightarrow> int \<Rightarrow> int \<Rightarrow> (string \<times> int) option" where
  "number_loop [] num_read num_radix = Some ([], num_read)"
| "number_loop (c # cs) num_read num_radix =
     (if isspace c then Some (c # cs, num_read)
      else if \<not> isdigit c \<and> c \<noteq> CHR ''.'' then None
      else if c = CHR ''.'' then
        (if num_radix + 1 > 1 then None
         else number_loop cs (num_read + 1) (num_radix + 1))
      else number_loop cs (num_read + 1) num_radix)"

text \<open>Third loop: \<open>False\<close> is the \<open>return false\<close> at a character that is not white space.\<close>

fun trailing_loop :: "string \<Rightarrow> bool" where
  "trailing_loop [] = True"
| "trailing_loop (c # cs) = (if \<not> isspace c then False else trailing_loop cs)"

definition is_number :: "string \<Rightarrow> bool" where
  "is_number str =
     (case number_loop (skip_leading str) 0 0 of
        None \<Rightarrow> False
      | Some (rest, num_read) \<Rightarrow>
          if \<not> trailing_loop rest then False else num_read > 0)"

section \<open>DataSet.h and DataSet.cpp: variables, elements and data sets\<close>

subsection \<open>Memory\<close>

text \<open>
  \<open>size_t\<close> is 64 bits wide and its arithmetic wraps around. A \<open>char\<close> array is a
  list of cells with the length it was allocated at; a cell holds a byte (a \<open>char\<close>),
  or, when it was never written (\<^verbatim>\<open>new char[n]\<close> initialises nothing), no
  determinate value, which is \<open>None\<close>.
\<close>

type_synonym size_t = "64 word"
type_synonym buffer = "char option list"

definition new_char :: "nat \<Rightarrow> buffer" where
  "new_char n = replicate n None"

text \<open>
  \<open>memcpy (dst + d, src + s, n)\<close>. Both ranges must lie inside their arrays, otherwise
  the behaviour is undefined (\<open>None\<close>); indeterminate cells are copied as they are.
\<close>

definition memcpy :: "buffer \<Rightarrow> nat \<Rightarrow> buffer \<Rightarrow> nat \<Rightarrow> nat \<Rightarrow> buffer option" where
  "memcpy dst d src s n =
     (if d + n \<le> length dst \<and> s + n \<le> length src
      then Some (take d dst @ take n (drop s src) @ drop (d + n) dst)
      else None)"

text \<open>
  \<open>memcmp (a, b, n)\<close>, which reads \<open>n\<close> cells of each array: outside an array, or on
  an indeterminate cell, its result is not defined (\<open>None\<close>). It compares the bytes as
  \<open>unsigned char\<close>; only the sign of a result other than 0 is specified.
\<close>

fun first_difference :: "string \<Rightarrow> string \<Rightarrow> int" where
  "first_difference (x # xs) (y # ys) =
     (if x = y then first_difference xs ys
      else if (of_char x :: nat) < of_char y then - 1 else 1)"
| "first_difference _ _ = 0"

definition memcmp :: "buffer \<Rightarrow> buffer \<Rightarrow> nat \<Rightarrow> int option" where
  "memcmp a b n =
     (if n \<le> length a \<and> n \<le> length b
         \<and> list_all (\<lambda>x. x \<noteq> None) (take n a) \<and> list_all (\<lambda>x. x \<noteq> None) (take n b)
      then Some (first_difference (map the (take n a)) (map the (take n b)))
      else None)"

text \<open>
  Reading \<open>n\<close> bytes through a \<open>char*\<close>, which is an array and an index into it:
  \<open>None\<close> outside the array or on an indeterminate cell.
\<close>

type_synonym char_ptr = "buffer \<times> nat"

definition read_bytes :: "char_ptr \<Rightarrow> nat \<Rightarrow> string option" where
  "read_bytes p n =
     (case p of (buf, off) \<Rightarrow>
        if off + n \<le> length buf \<and> list_all (\<lambda>x. x \<noteq> None) (take n (drop off buf))
        then Some (map the (take n (drop off buf)))
        else None)"

subsection \<open>DataVar\<close>

datatype VarType = EXPLANATORY | RESPONSE | OTHER

datatype DataType = CATEGORICAL | QUANTITATIVE

text \<open>
  The private field \<open>size\<close> is \<open>size_v\<close> here. \<open>DataVar::operator==\<close> compares all
  five fields, which is the equality of the record.
\<close>

record DataVar =
  "identifier" :: string
  variable_type :: VarType
  data_type :: DataType
  size_v :: size_t
  offset :: size_t

definition compute_elem_size :: "DataVar list \<Rightarrow> size_t" where
  "compute_elem_size vars = foldl (\<lambda>sum var. sum + size_v var) 0 vars"

subsection \<open>Outcomes of a call\<close>

datatype exn =
    DataException string
  | DataIOException string
  | std_out_of_range string
  | std_invalid_argument string

text \<open>
  A call that yields a value returns it, throws, or has undefined behaviour (a null
  pointer dereferenced, a vector indexed outside its range, memory accessed outside an
  array or read before it was written).
\<close>

datatype 'a result = Returns 'a | Throws exn | Undefined

subsection \<open>DataElement and DataSet\<close>

text \<open>
  A \<open>DataElement\<close> owns the array \<open>data\<close>; its other field, the pointer \<open>set\<close> to the
  data set it belongs to, is the data set the element is stored in.
\<close>

type_synonym DataElement = buffer

record DataSet =
  data_elements :: "DataElement list"
  data_variables :: "DataVar list"

text \<open>
  A member function that changes the data set: it finishes with a new state (\<open>Done\<close>),
  throws leaving the data set in the state given (\<open>Thrown\<close>), or has undefined behaviour.
\<close>

datatype effect = Done DataSet | Thrown exn DataSet | Undefined_effect

text \<open>\<open>DataElement::DataElement (char* dat, DataSet* parent_set)\<close>, at element size \<open>sz\<close>.\<close>

definition new_DataElement :: "buffer \<Rightarrow> size_t \<Rightarrow> DataElement option" where
  "new_DataElement dat sz = memcpy (new_char (unat sz)) 0 dat 0 (unat sz)"

text \<open>The constructor \<open>DataSet::DataSet (std::vector<DataVar> vars)\<close>.\<close>

definition new_DataSet :: "DataVar list \<Rightarrow> DataSet result" where
  "new_DataSet vars =
     (if length vars = 0 then Throws (DataException ''Too few variables for DataSet.'')
      else Returns \<lparr>data_elements = [], data_variables = vars\<rparr>)"

definition get_element_size :: "DataSet \<Rightarrow> size_t" where
  "get_element_size ds = compute_elem_size (data_variables ds)"

definition get_num_elements :: "DataSet \<Rightarrow> nat" where
  "get_num_elements ds = length (data_elements ds)"

definition get_num_vars :: "DataSet \<Rightarrow> nat" where
  "get_num_vars ds = length (data_variables ds)"

text \<open>\<open>data_elements[index]\<close>: \<open>std::vector::operator[]\<close> checks no bounds.\<close>

definition get_element :: "int \<Rightarrow> DataSet \<Rightarrow> DataElement result" where
  "get_element index ds =
     (if 0 \<le> index \<and> index < int (length (data_elements ds))
      then Returns (data_elements ds ! nat index)
      else Undefined)"

text \<open>\<open>None\<close> is the \<open>nullptr\<close> returned when no variable has the identifier.\<close>

definition get_var_by_id :: "string \<Rightarrow> DataSet \<Rightarrow> DataVar option" where
  "get_var_by_id name ds = find (\<lambda>d. identifier d = name) (data_variables ds)"

definition get_var_ids :: "DataSet \<Rightarrow> string list" where
  "get_var_ids ds = map identifier (data_variables ds)"

subsection \<open>Removing a variable\<close>

text \<open>
  The first loop of \<open>DataSet::remove_var (const DataVar&)\<close>: the variables that differ
  from \<open>var\<close>, those behind it moved down by its size.
\<close>

fun recompute_offsets :: "DataVar \<Rightarrow> DataVar list \<Rightarrow> DataVar list" where
  "recompute_offsets var [] = []"
| "recompute_offsets var (d # rest) =
     (if d \<noteq> var
      then (if offset d > offset var then d\<lparr>offset := offset d - size_v var\<rparr> else d)
             # recompute_offsets var rest
      else recompute_offsets var rest)"

text \<open>
  The loop over \<open>new_variables\<close> for one element: \<open>std::find_if\<close> looks the new
  variable \<open>v\<close> up among the old ones with \<open>operator==\<close>, and only a variable that is
  found is copied.
\<close>

fun repack :: "DataVar list \<Rightarrow> buffer \<Rightarrow> DataVar list \<Rightarrow> buffer \<Rightarrow> buffer option" where
  "repack old_variables raw_data [] new_data = Some new_data"
| "repack old_variables raw_data (v # vs) new_data =
     (case find (\<lambda>ent. ent = v) old_variables of
        None \<Rightarrow> repack old_variables raw_data vs new_data
      | Some found \<Rightarrow>
          (case memcpy new_data (unat (offset v)) raw_data (unat (offset found)) (unat (size_v v)) of
             None \<Rightarrow> None
           | Some copied \<Rightarrow> repack old_variables raw_data vs copied))"

text \<open>The loop over the elements; \<open>reformat\<close> replaces the array of each.\<close>

fun repack_elements ::
  "DataVar list \<Rightarrow> DataVar list \<Rightarrow> size_t \<Rightarrow> DataElement list \<Rightarrow> DataElement list option" where
  "repack_elements old_variables new_variables new_elem_size [] = Some []"
| "repack_elements old_variables new_variables new_elem_size (d # rest) =
     (case repack old_variables d new_variables (new_char (unat new_elem_size)) of
        None \<Rightarrow> None
      | Some new_data \<Rightarrow>
          (case repack_elements old_variables new_variables new_elem_size rest of
             None \<Rightarrow> None
           | Some rest' \<Rightarrow> Some (new_data # rest')))"

definition remove_var :: "DataVar \<Rightarrow> DataSet \<Rightarrow> effect" where
  "remove_var var ds =
     (if var \<notin> set (data_variables ds)
      then Thrown (DataException ''Variable to be removed not in data set.'') ds
      else
        (let new_variables = recompute_offsets var (data_variables ds);
             new_elem_size = compute_elem_size new_variables
         in (case repack_elements (data_variables ds) new_variables new_elem_size
                     (data_elements ds) of
               None \<Rightarrow> Undefined_effect
             | Some elements \<Rightarrow>
                 Done \<lparr>data_elements = elements, data_variables = new_variables\<rparr>)))"

text \<open>
  \<open>DataSet::remove_var (const std::string&)\<close> dereferences what \<open>get_var_by_id\<close>
  returns without a test.
\<close>

definition remove_var_id :: "string \<Rightarrow> DataSet \<Rightarrow> effect" where
  "remove_var_id name ds =
     (case get_var_by_id name ds of
        None \<Rightarrow> Undefined_effect
      | Some var \<Rightarrow> remove_var var ds)"

subsection \<open>Inserting and removing elements\<close>


definition append_element :: "buffer \<Rightarrow> DataSet \<Rightarrow> effect" where
  "append_element dat ds =
     (case new_DataElement dat (get_element_size ds) of
        None \<Rightarrow> Undefined_effect
      | Some ins \<Rightarrow> Done (ds\<lparr>data_elements := data_elements ds @ [ins]\<rparr>))"

definition remove_element :: "int \<Rightarrow> DataSet \<Rightarrow> effect" where
  "remove_element index ds =
     (if index < 0 \<or> index \<ge> int (length (data_elements ds))
      then Thrown (std_out_of_range ''Element to be removed out of range.'') ds
      else Done (ds\<lparr>data_elements :=
             take (nat index) (data_elements ds) @ drop (Suc (nat index)) (data_elements ds)\<rparr>))"


text \<open>
  The copy constructor \<open>DataSet::DataSet (const DataSet&)\<close>: every element is copied
  with \<open>DataElement::DataElement (const DataElement&)\<close>, at the element size of the set
  copied from.
\<close>

fun copy_elements :: "size_t \<Rightarrow> DataElement list \<Rightarrow> DataElement list option" where
  "copy_elements d_size [] = Some []"
| "copy_elements d_size (de # rest) =
     (case new_DataElement de d_size of
        None \<Rightarrow> None
      | Some ne \<Rightarrow>
          (case copy_elements d_size rest of None \<Rightarrow> None | Some rest' \<Rightarrow> Some (ne # rest')))"

definition copy_DataSet :: "DataSet \<Rightarrow> DataSet result" where
  "copy_DataSet ds =
     (case copy_elements (get_element_size ds) (data_elements ds) of
        None \<Rightarrow> Undefined
      | Some elements \<Rightarrow> Returns \<lparr>data_elements = elements, data_variables = data_variables ds\<rparr>)"

subsection \<open>Fields of an element\<close>

text \<open>
  The pointer returned is into the array of the element \<open>de\<close>, which belongs to the
  data set \<open>ds\<close>.
\<close>

definition get_field_id :: "string \<Rightarrow> DataElement \<Rightarrow> DataSet \<Rightarrow> char_ptr result" where
  "get_field_id name de ds =
     (case get_var_by_id name ds of
        None \<Rightarrow> Undefined
      | Some var \<Rightarrow> Returns (de, unat (offset var)))"

definition get_field_var :: "DataVar \<Rightarrow> DataElement \<Rightarrow> char_ptr" where
  "get_field_var var de = (de, unat (offset var))"

definition get_field_index :: "int \<Rightarrow> DataElement \<Rightarrow> DataSet \<Rightarrow> char_ptr result" where
  "get_field_index index de ds =
     (if index < 0 \<or> index \<ge> int (get_num_vars ds)
      then Throws (std_out_of_range ''Attempted to access data element field that was out of range.'')
      else get_field_id (get_var_ids ds ! nat index) de ds)"

subsection \<open>Counting the values of a variable\<close>

text \<open>
  The inner loop of \<open>DataSet::get_possible_values\<close> compares the element \<open>d\<close> with each
  array collected in \<open>col\<close>, over \<open>n = d->get_size()\<close> bytes from the start of both.
\<close>

fun compare_with :: "buffer list \<Rightarrow> DataElement \<Rightarrow> nat \<Rightarrow> bool \<Rightarrow> bool option" where
  "compare_with [] d n cmp = Some cmp"
| "compare_with (c # col) d n cmp =
     (case memcmp c d n of
        None \<Rightarrow> None
      | Some r \<Rightarrow> compare_with col d n (if r = 0 then True else cmp))"

fun count_values :: "DataElement list \<Rightarrow> buffer list \<Rightarrow> int \<Rightarrow> nat \<Rightarrow> int option" where
  "count_values [] col cnt n = Some cnt"
| "count_values (d # rest) col cnt n =
     (case compare_with col d n False of
        None \<Rightarrow> None
      | Some cmp \<Rightarrow>
          if \<not> cmp then count_values rest (col @ [d]) (cnt + 1) n
          else count_values rest col cnt n)"

definition get_possible_values :: "string \<Rightarrow> DataSet \<Rightarrow> int result" where
  "get_possible_values name ds =
     (case get_var_by_id name ds of
        None \<Rightarrow> Returns 0
      | Some v \<Rightarrow>
          if data_type v = QUANTITATIVE then Returns (- 1)
          else (case count_values (data_elements ds) [] 0 (unat (get_element_size ds)) of
                  None \<Rightarrow> Undefined
                | Some cnt \<Rightarrow> Returns cnt))"

subsection \<open>Forging a variable\<close>

text \<open>
  \<open>DataSet::forge_variable<T>\<close>. The type \<open>T\<close> is given by \<open>sizeof_T\<close>; \<open>mut\<close>
  takes the pointer to the field and returns the object representation of its result,
  from which \<open>sizeof (T)\<close> bytes are copied. \<open>get_field (mut_id)\<close> runs when the new
  variable is in \<open>data_variables\<close> already.
\<close>

definition forge_element ::
  "(char_ptr \<Rightarrow> buffer) \<Rightarrow> DataVar list \<Rightarrow> string \<Rightarrow> size_t \<Rightarrow> size_t \<Rightarrow> size_t
     \<Rightarrow> DataElement \<Rightarrow> buffer option" where
  "forge_element mut variables mut_id old_element_size new_elem_size new_size de =
     (case memcpy (new_char (unat new_elem_size)) 0 de 0 (unat old_element_size) of
        None \<Rightarrow> None
      | Some new_data \<Rightarrow>
          (case find (\<lambda>d. identifier d = mut_id) variables of
             None \<Rightarrow> None
           | Some var \<Rightarrow>
               memcpy new_data (unat old_element_size) (mut (de, unat (offset var))) 0 (unat new_size)))"

fun forge_elements ::
  "(char_ptr \<Rightarrow> buffer) \<Rightarrow> DataVar list \<Rightarrow> string \<Rightarrow> size_t \<Rightarrow> size_t \<Rightarrow> size_t
     \<Rightarrow> DataElement list \<Rightarrow> DataElement list option" where
  "forge_elements mut variables mut_id old_element_size new_elem_size new_size [] = Some []"
| "forge_elements mut variables mut_id old_element_size new_elem_size new_size (de # rest) =
     (case forge_element mut variables mut_id old_element_size new_elem_size new_size de of
        None \<Rightarrow> None
      | Some new_data \<Rightarrow>
          (case forge_elements mut variables mut_id old_element_size new_elem_size new_size rest of
             None \<Rightarrow> None
           | Some rest' \<Rightarrow> Some (new_data # rest')))"

definition forge_variable ::
  "size_t \<Rightarrow> (char_ptr \<Rightarrow> buffer) \<Rightarrow> string \<Rightarrow> string \<Rightarrow> DataSet \<Rightarrow> effect" where
  "forge_variable sizeof_T mut new_var_id mut_id ds =
     (if new_var_id = mut_id
      then Thrown (DataException
             ''Name for variable to be forged conflicts with original variable.'') ds
      else
        (case get_var_by_id mut_id ds of
           None \<Rightarrow> Thrown (DataException ''Failed to find variable to forge from.'') ds
         | Some src \<Rightarrow>
             (let old_element_size = get_element_size ds;
                  new_var = \<lparr>identifier = new_var_id, variable_type = variable_type src,
                             data_type = data_type src, size_v = sizeof_T,
                             offset = old_element_size\<rparr>;
                  variables = data_variables ds @ [new_var];
                  new_elem_size = compute_elem_size variables
              in (case forge_elements mut variables mut_id old_element_size new_elem_size
                          (size_v new_var) (data_elements ds) of
                    None \<Rightarrow> Undefined_effect
                  | Some elements \<Rightarrow>
                      Done \<lparr>data_elements = elements, data_variables = variables\<rparr>))))"

section \<open>DataSet.h: reading and writing CSV files\<close>

subsection \<open>Input streams\<close>

text \<open>
  A \<open>std::ifstream\<close> or \<open>std::stringstream\<close> that is only read with \<open>std::getline\<close>:
  the characters not extracted yet, and the state bits. \<open>getline\<close> sets \<open>failbit\<close>
  only when it meets the end before any character, so the bits are in one of three
  states: none set, \<open>eofbit\<close> alone, \<open>eofbit\<close> with \<open>failbit\<close>.
\<close>

datatype iostate = goodbit | eofbit | eof_failbit

record istream =
  unread :: string
  state :: iostate

text \<open>
  A stream opened on \<open>content\<close>; also \<open>file.clear (); file.seekg (0)\<close> on the file
  with that content.
\<close>

definition open_istream :: "string \<Rightarrow> istream" where
  "open_istream content = \<lparr>unread = content, state = goodbit\<rparr>"

definition stream_eof :: "istream \<Rightarrow> bool" where
  "stream_eof strm = (state strm \<noteq> goodbit)"

definition stream_fail :: "istream \<Rightarrow> bool" where
  "stream_fail strm = (state strm = eof_failbit)"

text \<open>
  \<open>std::getline (strm, str, delim)\<close>, which returns the stream and the new value of
  \<open>str\<close>. On a stream with a bit set nothing is extracted, \<open>str\<close> keeps its value and
  \<open>failbit\<close> is set. Otherwise \<open>str\<close> is erased and characters are moved to it up
  to the delimiter, which is extracted and dropped, or up to the end of the stream.
\<close>

definition getline :: "istream \<Rightarrow> string \<Rightarrow> char \<Rightarrow> istream \<times> string" where
  "getline strm str delim =
     (if state strm \<noteq> goodbit then (strm\<lparr>state := eof_failbit\<rparr>, str)
      else case dropWhile (\<lambda>c. c \<noteq> delim) (unread strm) of
             [] \<Rightarrow> (\<lparr>unread = [], state = (if unread strm = [] then eof_failbit else eofbit)\<rparr>,
                    unread strm)
           | d # rest \<Rightarrow> (\<lparr>unread = rest, state = goodbit\<rparr>,
                    takeWhile (\<lambda>c. c \<noteq> delim) (unread strm)))"

text \<open>The loops over a stream end: each \<open>getline\<close> that succeeds lowers this measure.\<close>

definition stream_measure :: "istream \<Rightarrow> nat" where
  "stream_measure strm =
     (case state strm of goodbit \<Rightarrow> length (unread strm) + 2 | eofbit \<Rightarrow> 1 | eof_failbit \<Rightarrow> 0)"

lemma getline_measure:
  "getline strm str delim = (strm', str') \<Longrightarrow> \<not> stream_fail strm'
     \<Longrightarrow> stream_measure strm' < stream_measure strm"
proof -
  assume g: "getline strm str delim = (strm', str')" and nf: "\<not> stream_fail strm'"
  have "length (dropWhile (\<lambda>c. c \<noteq> delim) (unread strm)) \<le> length (unread strm)"
    by (rule length_dropWhile_le)
  with g nf show ?thesis
    by (auto simp: getline_def stream_fail_def stream_measure_def
          split: if_splits list.splits iostate.splits)
qed

lemma getline_measure_good:
  "getline strm str delim = (strm', str') \<Longrightarrow> \<not> stream_eof strm
     \<Longrightarrow> stream_measure strm' < stream_measure strm"
proof -
  assume g: "getline strm str delim = (strm', str')" and nf: "\<not> stream_eof strm"
  have "length (dropWhile (\<lambda>c. c \<noteq> delim) (unread strm)) \<le> length (unread strm)"
    by (rule length_dropWhile_le)
  with g nf show ?thesis
    by (auto simp: getline_def stream_eof_def stream_measure_def
          split: if_splits list.splits iostate.splits)
qed

subsection \<open>Reading against a given list of variables\<close>

text \<open>
  \<open>read_from_csv (path, var_template, skip_first)\<close>. The template parameter
  \<open>QUANT_TYPE\<close> is given by its size \<open>sizeof_Q\<close> and by \<open>stod_cast\<close>, which is
  \<open>std::stod\<close> followed by the cast to \<open>QUANT_TYPE\<close>: it returns the bytes of the
  value, or throws what \<open>std::stod\<close> throws.

  The \<open>for\<close> loop over the fields of one line; it returns \<open>i\<close>, the array filled
  and the last value of \<open>line\<close>. A categorical token is padded with zero bytes up to
  the size of the variable, and \<open>memcpy\<close> reads from \<open>line.c_str ()\<close>, which ends with
  one more zero byte.
\<close>

function read_fields ::
  "size_t \<Rightarrow> (string \<Rightarrow> string result) \<Rightarrow> DataVar list \<Rightarrow> istream \<Rightarrow> string \<Rightarrow> int \<Rightarrow> buffer
     \<Rightarrow> (int \<times> buffer \<times> string) result" where
  "read_fields sizeof_Q stod_cast var_template ss line i data =
     (case getline ss line (CHR '','') of (ss', token) \<Rightarrow>
        if stream_fail ss' then Returns (i, data, token)
        else if i < 0 then Undefined
        else if i \<ge> int (length var_template)
        then Throws (DataIOException ''Inconsistent file format (too many fields).'')
        else if data_type (var_template ! nat i) = QUANTITATIVE then
          (case stod_cast token of
             Throws e \<Rightarrow> Throws e
           | Undefined \<Rightarrow> Undefined
           | Returns val \<Rightarrow>
               if sizeof_Q \<noteq> size_v (var_template ! nat i)
               then Throws (DataIOException ''Quantitative variable size mismatch.'')
               else (case memcpy data (unat (offset (var_template ! nat i)))
                            (map Some val) 0 (unat sizeof_Q) of
                       None \<Rightarrow> Undefined
                     | Some data' \<Rightarrow>
                         read_fields sizeof_Q stod_cast var_template ss' token (i + 1) data'))
        else
          (case memcpy data (unat (offset (var_template ! nat i)))
                  (map Some (token @ replicate (unat (size_v (var_template ! nat i)) - length token)
                     (CHR 0x00) @ [CHR 0x00]))
                  0 (unat (size_v (var_template ! nat i))) of
             None \<Rightarrow> Undefined
           | Some data' \<Rightarrow>
               read_fields sizeof_Q stod_cast var_template ss'
                 (token @ replicate (unat (size_v (var_template ! nat i)) - length token) (CHR 0x00))
                 (i + 1) data'))"
  by pat_completeness auto
termination
  by (relation "measure (\<lambda>(q, c, vt, ss, line, i, data). stream_measure ss)")
    (auto dest: getline_measure [OF sym])

declare read_fields.simps [simp del]

text \<open>The \<open>while (!file.eof ())\<close> loop over the lines.\<close>

function read_rows ::
  "size_t \<Rightarrow> (string \<Rightarrow> string result) \<Rightarrow> DataVar list \<Rightarrow> size_t \<Rightarrow> istream \<Rightarrow> string
     \<Rightarrow> DataSet \<Rightarrow> DataSet result" where
  "read_rows sizeof_Q stod_cast var_template elem_sz file line ds =
     (if stream_eof file then Returns ds
      else case read_fields sizeof_Q stod_cast var_template (open_istream line) line 0
                  (new_char (unat elem_sz)) of
        Throws e \<Rightarrow> Throws e
      | Undefined \<Rightarrow> Undefined
      | Returns (i, data, line') \<Rightarrow>
          if i \<noteq> int (length var_template)
          then Throws (DataIOException ''Inconsistent file format (too few fields).'')
          else (case append_element data ds of
                  Undefined_effect \<Rightarrow> Undefined
                | Thrown e ds' \<Rightarrow> Throws e
                | Done ds' \<Rightarrow>
                    (case getline file line' (CHR 0x0A) of (file', line'') \<Rightarrow>
                       read_rows sizeof_Q stod_cast var_template elem_sz file' line'' ds')))"
  by pat_completeness auto
termination
  by (relation "measure (\<lambda>(q, c, vt, sz, file, line, ds). stream_measure file)")
    (auto dest: getline_measure_good [OF sym])

declare read_rows.simps [simp del]

text \<open>
  \<open>path\<close> is the content of the file at the path, \<open>None\<close> when it cannot be opened.
\<close>

definition read_from_csv_template ::
  "size_t \<Rightarrow> (string \<Rightarrow> string result) \<Rightarrow> string option \<Rightarrow> DataVar list \<Rightarrow> bool
     \<Rightarrow> DataSet result" where
  "read_from_csv_template sizeof_Q stod_cast path var_template skip_first =
     (case path of
        None \<Rightarrow> Throws (DataIOException ''Failed to open CSV file.'')
      | Some content \<Rightarrow>
          (case (if skip_first then getline (open_istream content) [] (CHR 0x0A)
                 else (open_istream content, [])) of
             (file, temp) \<Rightarrow>
               (case new_DataSet var_template of
                  Throws e \<Rightarrow> Throws e
                | Undefined \<Rightarrow> Undefined
                | Returns ds \<Rightarrow>
                    (case getline file [] (CHR 0x0A) of (file', line) \<Rightarrow>
                       read_rows sizeof_Q stod_cast var_template (get_element_size ds)
                         file' line ds))))"

subsection \<open>Reading with the variables inferred from the file\<close>

text \<open>
  \<open>read_from_csv (path)\<close>. The loop over the header: every variable starts
  quantitative with the size \<open>(size_t) -1\<close>, which marks it undetermined.
\<close>

function read_header :: "istream \<Rightarrow> string \<Rightarrow> DataVar list \<Rightarrow> DataVar list \<times> string" where
  "read_header hss line vars =
     (case getline hss line (CHR '','') of (hss', token) \<Rightarrow>
        if stream_fail hss' then (vars, token)
        else read_header hss' token
               (vars @ [\<lparr>identifier = token, variable_type = EXPLANATORY,
                          data_type = QUANTITATIVE, size_v = - 1, offset = 0\<rparr>]))"
  by pat_completeness auto
termination
  by (relation "measure (\<lambda>(hss, line, vars). stream_measure hss)")
    (auto dest: getline_measure [OF sym])

declare read_header.simps [simp del]

text \<open>
  The number of quantitative variables: no step of the scan raises it, and a restart
  lowers it, which is why the scan ends.
\<close>

definition quantitative_count :: "DataVar list \<Rightarrow> nat" where
  "quantitative_count vars = length (filter (\<lambda>v. data_type v = QUANTITATIVE) vars)"

lemma quantitative_count_update:
  "k < length vars \<Longrightarrow>
     quantitative_count (vars[k := v]) + (if data_type (vars ! k) = QUANTITATIVE then 1 else 0)
       = quantitative_count vars + (if data_type v = QUANTITATIVE then 1 else 0)"
proof (induction vars arbitrary: k)
  case Nil
  then show ?case by simp
next
  case (Cons a vars)
  then show ?case
    by (cases k) (auto simp: quantitative_count_def)
qed

lemma quantitative_count_same:
  "k < length vars \<Longrightarrow> data_type v = data_type (vars ! k)
     \<Longrightarrow> quantitative_count (vars[k := v]) = quantitative_count vars"
  using quantitative_count_update [of k vars v] by simp

lemma quantitative_count_less:
  "k < length vars \<Longrightarrow> data_type (vars ! k) = QUANTITATIVE \<Longrightarrow> data_type v \<noteq> QUANTITATIVE
     \<Longrightarrow> quantitative_count (vars[k := v]) < quantitative_count vars"
  using quantitative_count_update [of k vars v] by simp

lemma quantitative_count_le:
  "k < length vars \<Longrightarrow> data_type v \<noteq> QUANTITATIVE
     \<Longrightarrow> quantitative_count (vars[k := v]) \<le> quantitative_count vars"
  using quantitative_count_update [of k vars v] by (simp split: if_splits)

text \<open>
  The \<open>for\<close> loop over the fields of one line, with the variables, the file, the
  stream \<open>ess\<close> over the line, \<open>line\<close> and \<open>cnt\<close> as its state. On a token that
  is no number in a quantitative variable already sized, the loop makes the variable
  categorical and undetermined, rewinds the file, reads the header and the first data
  line again and goes on with that line (\<open>cnt = -1\<close>, then \<open>++cnt\<close>).
\<close>

function scan_fields ::
  "size_t \<Rightarrow> string \<Rightarrow> DataVar list \<Rightarrow> istream \<Rightarrow> istream \<Rightarrow> string \<Rightarrow> int
     \<Rightarrow> (DataVar list \<times> istream \<times> string \<times> int) result" where
  "scan_fields sizeof_Q content vars file ess line cnt =
     (case getline ess line (CHR '','') of (ess', token) \<Rightarrow>
        if stream_fail ess' then Returns (vars, file, token, cnt)
        else if cnt < 0 then Undefined
        else if cnt \<ge> int (length vars)
        then Throws (DataIOException
               ''Reading of CSV failed. Too many fields for number of variables.'')
        else if is_number token \<and> data_type (vars ! nat cnt) = QUANTITATIVE then
          scan_fields sizeof_Q content
            (if size_v (vars ! nat cnt) = - 1
             then vars[nat cnt := (vars ! nat cnt)\<lparr>size_v := sizeof_Q\<rparr>] else vars)
            file ess' token (cnt + 1)
        else if data_type (vars ! nat cnt) = QUANTITATIVE \<and> size_v (vars ! nat cnt) \<noteq> - 1 then
          (case getline (open_istream content) token (CHR 0x0A) of (file1, header) \<Rightarrow>
           case getline file1 header (CHR 0x0A) of (file2, first) \<Rightarrow>
             scan_fields sizeof_Q content
               (vars[nat cnt := (vars ! nat cnt)\<lparr>data_type := CATEGORICAL, size_v := - 1\<rparr>])
               file2 (open_istream first) first (- 1 + 1))
        else
          scan_fields sizeof_Q content
            (if size_v (vars ! nat cnt) = - 1
                \<or> size_v (vars ! nat cnt) < of_nat (length token) + 1
             then vars[nat cnt := (vars ! nat cnt)\<lparr>data_type := CATEGORICAL,
                                     size_v := of_nat (length token) + 1\<rparr>]
             else vars)
            file ess' token (cnt + 1))"
  by pat_completeness auto
termination
  apply (relation "(\<lambda>(q, c, vars, file, ess, line, cnt). quantitative_count vars)
         <*mlex*> measure (\<lambda>(q, c, vars, file, ess, line, cnt). stream_measure ess)")
  subgoal by (simp add: wf_mlex)
  subgoal by (auto intro!: mlex_leq simp: quantitative_count_same dest: getline_measure [OF sym])
  subgoal by (auto intro!: mlex_less simp: quantitative_count_less)
  subgoal by (auto intro!: mlex_leq simp: quantitative_count_le dest: getline_measure [OF sym])
  done

declare scan_fields.simps [simp del]

lemma scan_fields_progress:
  "scan_fields sizeof_Q content vars f ess line cnt = Returns (vars', file', line', cnt')
     \<Longrightarrow> quantitative_count vars' < quantitative_count vars
         \<or> (quantitative_count vars' \<le> quantitative_count vars \<and> file' = f)"
proof (induction sizeof_Q content vars f ess line cnt rule: scan_fields.induct)
  case (1 sizeof_Q content vars f ess line cnt)
  obtain ess' token where g: "getline ess line (CHR '','') = (ess', token)"
    by (cases "getline ess line (CHR '','')")
  show ?case
  proof (cases "stream_fail ess'")
    case True
    with "1.prems" g show ?thesis by (simp add: scan_fields.simps [of _ _ _ _ ess])
  next
    case nf: False
    from "1.prems" g nf have c0: "\<not> cnt < 0" and c1: "\<not> cnt \<ge> int (length vars)"
      by (auto simp: scan_fields.simps [of _ _ _ _ ess] split: if_splits)
    then have k: "nat cnt < length vars" by simp
    consider
      (num) "is_number token \<and> data_type (vars ! nat cnt) = QUANTITATIVE"
      | (demote) "\<not> (is_number token \<and> data_type (vars ! nat cnt) = QUANTITATIVE)"
          "data_type (vars ! nat cnt) = QUANTITATIVE \<and> size_v (vars ! nat cnt) \<noteq> - 1"
      | (cat) "\<not> (is_number token \<and> data_type (vars ! nat cnt) = QUANTITATIVE)"
          "\<not> (data_type (vars ! nat cnt) = QUANTITATIVE \<and> size_v (vars ! nat cnt) \<noteq> - 1)"
      by blast
    then show ?thesis
    proof cases
      case num
      let ?vars = "if size_v (vars ! nat cnt) = - 1
             then vars[nat cnt := (vars ! nat cnt)\<lparr>size_v := sizeof_Q\<rparr>] else vars"
      from "1.prems" g nf c0 c1 num
      have "scan_fields sizeof_Q content ?vars f ess' token (cnt + 1) = Returns (vars', file', line', cnt')"
        by (simp add: scan_fields.simps [of _ _ _ _ ess])
      from "1.IH"(1) [OF g [symmetric] nf c0 c1 num this]
      have "quantitative_count vars' < quantitative_count ?vars
         \<or> (quantitative_count vars' \<le> quantitative_count ?vars \<and> file' = f)" .
      moreover have "quantitative_count ?vars = quantitative_count vars"
        using k by (simp add: quantitative_count_same)
      ultimately show ?thesis by simp
    next
      case demote
      obtain file1 header where g1: "getline (open_istream content) token (CHR 0x0A) = (file1, header)"
        by (cases "getline (open_istream content) token (CHR 0x0A)")
      obtain file2 first where g2: "getline file1 header (CHR 0x0A) = (file2, first)"
        by (cases "getline file1 header (CHR 0x0A)")
      let ?vars = "vars[nat cnt := (vars ! nat cnt)\<lparr>data_type := CATEGORICAL, size_v := - 1\<rparr>]"
      from "1.prems" g nf c0 c1 demote g1 g2
      have "scan_fields sizeof_Q content ?vars file2 (open_istream first) first (- 1 + 1)
              = Returns (vars', file', line', cnt')"
        by (simp add: scan_fields.simps [of _ _ _ _ ess])
      from "1.IH"(2) [OF g [symmetric] nf c0 c1 demote g1 [symmetric] g2 [symmetric] this]
      have "quantitative_count vars' \<le> quantitative_count ?vars"
        by auto
      moreover have "quantitative_count ?vars < quantitative_count vars"
        using k demote by (simp add: quantitative_count_less)
      ultimately show ?thesis by simp
    next
      case cat
      let ?vars = "if size_v (vars ! nat cnt) = - 1
                \<or> size_v (vars ! nat cnt) < of_nat (length token) + 1
             then vars[nat cnt := (vars ! nat cnt)\<lparr>data_type := CATEGORICAL,
                                     size_v := of_nat (length token) + 1\<rparr>]
             else vars"
      from "1.prems" g nf c0 c1 cat
      have "scan_fields sizeof_Q content ?vars f ess' token (cnt + 1) = Returns (vars', file', line', cnt')"
        by (simp add: scan_fields.simps [of _ _ _ _ ess])
      from "1.IH"(3) [OF g [symmetric] nf c0 c1 cat this]
      have "quantitative_count vars' < quantitative_count ?vars
         \<or> (quantitative_count vars' \<le> quantitative_count ?vars \<and> file' = f)" .
      moreover have "quantitative_count ?vars \<le> quantitative_count vars"
        using k by (simp add: quantitative_count_le)
      ultimately show ?thesis by auto
    qed
  qed
qed

text \<open>The \<open>while (!file.eof ())\<close> loop over the lines of the scan.\<close>

function scan_lines ::
  "size_t \<Rightarrow> string \<Rightarrow> DataVar list \<Rightarrow> istream \<Rightarrow> string \<Rightarrow> DataVar list result" where
  "scan_lines sizeof_Q content vars file line =
     (if stream_eof file then Returns vars
      else case scan_fields sizeof_Q content vars file (open_istream line) line 0 of
        Throws e \<Rightarrow> Throws e
      | Undefined \<Rightarrow> Undefined
      | Returns (vars', file', line', cnt) \<Rightarrow>
          if cnt < int (length vars)
          then Throws (DataIOException
                 ''Reading of CSV failed. Too few fields for number of variables.'')
          else (case getline file' line' (CHR 0x0A) of (file'', line'') \<Rightarrow>
                  scan_lines sizeof_Q content vars' file'' line''))"
  by pat_completeness auto
termination
  apply (relation "(\<lambda>(q, c, vars, file, line). quantitative_count vars)
         <*mlex*> measure (\<lambda>(q, c, vars, file, line). stream_measure file)")
  subgoal by (simp add: wf_mlex)
  subgoal premises prems for sizeof_Q content vars f line x2 vars' y file' ya line' cnt file'' line''
  proof -
    from prems have sf: "scan_fields sizeof_Q content vars f (open_istream line) line 0
        = Returns (vars', file', line', cnt)"
      by simp
    from prems have g: "getline file' line' (CHR 0x0A) = (file'', line'')"
      by simp
    from prems have ne: "\<not> stream_eof f"
      by simp
    from scan_fields_progress [OF sf] show ?thesis
    proof
      assume "quantitative_count vars' < quantitative_count vars"
      then show ?thesis by (intro mlex_less) simp
    next
      assume a: "quantitative_count vars' \<le> quantitative_count vars \<and> file' = f"
      with getline_measure_good [OF g] ne have "stream_measure file'' < stream_measure f"
        by simp
      with a show ?thesis by (intro mlex_leq) simp_all
    qed
  qed
  done

declare scan_lines.simps [simp del]

text \<open>The last loop: a variable still undetermined is an error; offsets are running sums.\<close>

fun assign_offsets :: "DataVar list \<Rightarrow> size_t \<Rightarrow> DataVar list result" where
  "assign_offsets [] total_sz = Returns []"
| "assign_offsets (v # rest) total_sz =
     (if size_v v = - 1
      then Throws (DataIOException ''Cannot determine variable sizes for CSV file.'')
      else case assign_offsets rest (total_sz + size_v v) of
             Returns rest' \<Rightarrow> Returns (v\<lparr>offset := total_sz\<rparr> # rest')
           | Throws e \<Rightarrow> Throws e
           | Undefined \<Rightarrow> Undefined)"

text \<open>The variables as they are when \<open>read_from_csv (path)\<close> passes them on.\<close>

definition infer_variables :: "size_t \<Rightarrow> string \<Rightarrow> DataVar list result" where
  "infer_variables sizeof_Q content =
     (case getline (open_istream content) [] (CHR 0x0A) of
        (file, header) \<Rightarrow>
          (case read_header (open_istream header) header [] of
             (vars, line) \<Rightarrow>
               (case getline file line (CHR 0x0A) of
                  (file', line') \<Rightarrow>
                    (case scan_lines sizeof_Q content vars file' line' of
                       Throws e \<Rightarrow> Throws e
                     | Undefined \<Rightarrow> Undefined
                     | Returns vars' \<Rightarrow> assign_offsets vars' 0))))"

definition read_from_csv ::
  "size_t \<Rightarrow> (string \<Rightarrow> string result) \<Rightarrow> string option \<Rightarrow> DataSet result" where
  "read_from_csv sizeof_Q stod_cast path =
     (case path of
        None \<Rightarrow> Throws (DataIOException ''Failed to open CSV file.'')
      | Some content \<Rightarrow>
          (case infer_variables sizeof_Q content of
             Throws e \<Rightarrow> Throws e
           | Undefined \<Rightarrow> Undefined
           | Returns vars \<Rightarrow> read_from_csv_template sizeof_Q stod_cast path vars True))"

subsection \<open>Writing\<close>

text \<open>
  \<open>write_to_csv\<close>. \<open>shift_out\<close> is \<open>operator<<\<close> of the stream on a \<open>QUANT_TYPE\<close>
  value, given by its bytes. A categorical field is written as the \<open>size\<close> bytes it
  holds, zero bytes included. The result is the content of the file written.
\<close>

fun write_header :: "DataVar list \<Rightarrow> string" where
  "write_header [] = []"
| "write_header (v # rest) =
     (if rest \<noteq> [] then identifier v @ '','' @ write_header rest
      else identifier v @ [CHR 0x0A])"

text \<open>What the body of the inner loop writes for the variable \<open>v\<close>, before the delimiter.\<close>

definition write_field ::
  "size_t \<Rightarrow> (string \<Rightarrow> string) \<Rightarrow> DataElement \<Rightarrow> DataVar \<Rightarrow> string option" where
  "write_field sizeof_Q shift_out de v =
     (if data_type v = QUANTITATIVE
      then map_option shift_out (read_bytes (get_field_var v de) (unat sizeof_Q))
      else read_bytes (get_field_var v de) (unat (size_v v)))"

fun write_fields ::
  "size_t \<Rightarrow> (string \<Rightarrow> string) \<Rightarrow> DataElement \<Rightarrow> DataVar list \<Rightarrow> string option" where
  "write_fields sizeof_Q shift_out de [] = Some []"
| "write_fields sizeof_Q shift_out de (v # rest) =
     (case write_field sizeof_Q shift_out de v of
        None \<Rightarrow> None
      | Some dat \<Rightarrow>
          (case write_fields sizeof_Q shift_out de rest of
             None \<Rightarrow> None
           | Some others \<Rightarrow> Some (dat @ (if rest \<noteq> [] then '','' else [CHR 0x0A]) @ others)))"

fun write_elements ::
  "size_t \<Rightarrow> (string \<Rightarrow> string) \<Rightarrow> DataVar list \<Rightarrow> DataElement list \<Rightarrow> string option" where
  "write_elements sizeof_Q shift_out vars [] = Some []"
| "write_elements sizeof_Q shift_out vars (de # rest) =
     (case write_fields sizeof_Q shift_out de vars of
        None \<Rightarrow> None
      | Some row \<Rightarrow>
          (case write_elements sizeof_Q shift_out vars rest of
             None \<Rightarrow> None
           | Some others \<Rightarrow> Some (row @ others)))"

definition write_to_csv ::
  "size_t \<Rightarrow> (string \<Rightarrow> string) \<Rightarrow> bool \<Rightarrow> DataSet \<Rightarrow> string result" where
  "write_to_csv sizeof_Q shift_out writable ds =
     (if \<not> writable then Throws (DataIOException ''Failed to write CSV file.'')
      else case write_elements sizeof_Q shift_out (data_variables ds) (data_elements ds) of
             None \<Rightarrow> Undefined
           | Some rows \<Rightarrow> Returns (write_header (data_variables ds) @ rows))"

section \<open>Notions used in the statements\<close>

text \<open>The bytes of the variable \<open>var\<close> in the array of an element.\<close>

definition field_bytes :: "DataVar \<Rightarrow> DataElement \<Rightarrow> buffer" where
  "field_bytes var de = take (unat (size_v var)) (drop (unat (offset var)) de)"





subsection \<open>Example data\<close>

definition var_a :: DataVar where
  "var_a = \<lparr>identifier = ''a'', variable_type = EXPLANATORY, data_type = CATEGORICAL,
            size_v = 1, offset = 0\<rparr>"

definition var_b :: DataVar where
  "var_b = \<lparr>identifier = ''b'', variable_type = EXPLANATORY, data_type = CATEGORICAL,
            size_v = 1, offset = 1\<rparr>"

text \<open>One row, \<open>a = "A"\<close> and \<open>b = "B"\<close>.\<close>

definition one_row :: DataSet where
  "one_row = \<lparr>data_elements = [[Some (CHR ''A''), Some (CHR ''B'')]],
              data_variables = [var_a, var_b]\<rparr>"

text \<open>Two rows that agree on \<open>a\<close> and differ on \<open>b\<close>.\<close>

definition two_rows :: DataSet where
  "two_rows = \<lparr>data_elements = [[Some (CHR ''x''), Some (CHR ''1'')],
                                 [Some (CHR ''x''), Some (CHR ''2'')]],
               data_variables = [var_a, var_b]\<rparr>"

text \<open>A variable whose offset is not the sum of the sizes before it.\<close>

definition var_at_5 :: DataVar where
  "var_at_5 = \<lparr>identifier = ''a'', variable_type = EXPLANATORY, data_type = QUANTITATIVE,
               size_v = 8, offset = 5\<rparr>"

text \<open>A \<open>mut\<close> for \<open>forge_variable<char>\<close>: the byte the pointer points to.\<close>

definition pointed_byte :: "char_ptr \<Rightarrow> buffer" where
  "pointed_byte p = take 1 (drop (snd p) (fst p))"

lemmas example_defs = var_a_def var_b_def one_row_def two_rows_def

subsection \<open>Data sets that a CSV file can carry\<close>

text \<open>
  The sum of the sizes of the variables, with no wrap-around; the layout is packed when
  every offset is the sum of the sizes before it and the whole fits \<open>size_t\<close>.
\<close>

definition row_width :: "DataVar list \<Rightarrow> nat" where
  "row_width vars = sum_list (map (\<lambda>v. unat (size_v v)) vars)"

fun packed_from :: "nat \<Rightarrow> DataVar list \<Rightarrow> bool" where
  "packed_from n [] = True"
| "packed_from n (v # rest) = (unat (offset v) = n \<and> packed_from (n + unat (size_v v)) rest)"

definition packed :: "DataVar list \<Rightarrow> bool" where
  "packed vars = (packed_from 0 vars \<and> row_width vars < 2 ^ 64)"

text \<open>Every row has the row width and no indeterminate byte.\<close>

definition rows_written :: "DataSet \<Rightarrow> bool" where
  "rows_written ds =
     list_all (\<lambda>de. length de = row_width (data_variables ds) \<and> list_all (\<lambda>x. x \<noteq> None) de)
       (data_elements ds)"

text \<open>No identifier holds a line feed.\<close>

definition names_on_one_line :: "DataVar list \<Rightarrow> bool" where
  "names_on_one_line vars = list_all (\<lambda>v. CHR 0x0A \<notin> set (identifier v)) vars"

text \<open>
  The text written for a field holds no comma and no line feed, is not empty when the
  variable is the last one, and, for a quantitative variable, which has the size of
  \<open>QUANT_TYPE\<close>, is converted back to the bytes of the field.
\<close>

definition field_round_trips ::
  "size_t \<Rightarrow> (string \<Rightarrow> string) \<Rightarrow> (string \<Rightarrow> string result) \<Rightarrow> DataElement \<Rightarrow> DataVar \<Rightarrow> bool
     \<Rightarrow> bool" where
  "field_round_trips sizeof_Q shift_out stod_cast de v is_last =
     (case write_field sizeof_Q shift_out de v of
        None \<Rightarrow> False
      | Some dat \<Rightarrow>
          CHR '','' \<notin> set dat \<and> CHR 0x0A \<notin> set dat \<and> (is_last \<longrightarrow> dat \<noteq> [])
          \<and> (data_type v = QUANTITATIVE \<longrightarrow>
                size_v v = sizeof_Q \<and> stod_cast dat = Returns (map the (field_bytes v de))))"

fun fields_round_trip ::
  "size_t \<Rightarrow> (string \<Rightarrow> string) \<Rightarrow> (string \<Rightarrow> string result) \<Rightarrow> DataElement \<Rightarrow> DataVar list
     \<Rightarrow> bool" where
  "fields_round_trip sizeof_Q shift_out stod_cast de [] = True"
| "fields_round_trip sizeof_Q shift_out stod_cast de (v # rest) =
     (field_round_trips sizeof_Q shift_out stod_cast de v (rest = [])
      \<and> fields_round_trip sizeof_Q shift_out stod_cast de rest)"

definition text_round_trips ::
  "size_t \<Rightarrow> (string \<Rightarrow> string) \<Rightarrow> (string \<Rightarrow> string result) \<Rightarrow> DataSet \<Rightarrow> bool" where
  "text_round_trips sizeof_Q shift_out stod_cast ds =
     list_all (\<lambda>de. fields_round_trip sizeof_Q shift_out stod_cast de (data_variables ds))
       (data_elements ds)"

text \<open>
  The line written for a row, without its line feed: the texts of the fields with commas
  between them; and the stream over such a line once the fields before have been read.
\<close>

fun join_fields :: "string list \<Rightarrow> string" where
  "join_fields [] = []"
| "join_fields [t] = t"
| "join_fields (t # ts) = t @ CHR '','' # join_fields ts"

definition field_texts ::
  "size_t \<Rightarrow> (string \<Rightarrow> string) \<Rightarrow> DataElement \<Rightarrow> DataVar list \<Rightarrow> string list" where
  "field_texts sizeof_Q shift_out de vs = map (\<lambda>v. the (write_field sizeof_Q shift_out de v)) vs"

definition rest_stream :: "string list \<Rightarrow> istream" where
  "rest_stream ts =
     (if ts = [] then \<lparr>unread = [], state = eofbit\<rparr>
      else \<lparr>unread = join_fields ts, state = goodbit\<rparr>)"

definition row_line :: "size_t \<Rightarrow> (string \<Rightarrow> string) \<Rightarrow> DataVar list \<Rightarrow> DataElement \<Rightarrow> string" where
  "row_line sizeof_Q shift_out vars de = join_fields (field_texts sizeof_Q shift_out de vars)"

subsection \<open>More example data\<close>

text \<open>
  The examples have categorical variables only, so that \<open>operator<<\<close> and \<open>std::stod\<close>
  are never called on a number; these two stand where a call passes them.
\<close>

definition no_shift_out :: "string \<Rightarrow> string" where
  "no_shift_out val = []"

definition no_stod_cast :: "string \<Rightarrow> string result" where
  "no_stod_cast token = Throws (std_invalid_argument ''stod'')"

text \<open>One categorical variable of size 3, and one row that holds a comma.\<close>

definition var_w :: DataVar where
  "var_w = \<lparr>identifier = ''w'', variable_type = EXPLANATORY, data_type = CATEGORICAL,
            size_v = 3, offset = 0\<rparr>"

definition comma_row :: DataSet where
  "comma_row = \<lparr>data_elements = [[Some (CHR ''x''), Some (CHR '',''), Some (CHR ''y'')]],
                data_variables = [var_w]\<rparr>"

section \<open>The classifier\<close>

subsection \<open>The classifier accepts exactly the unsigned decimal numerals\<close>

lemma isspace_not_numeral_char: "isspace c \<Longrightarrow> \<not> isdigit c \<and> c \<noteq> CHR ''.''"
  by (auto simp: isspace_def isdigit_def)

lemma skip_leading_dropWhile: "skip_leading s = dropWhile isspace s"
  by (induction s) auto

lemma trailing_loop_list_all: "trailing_loop s = list_all isspace s"
  by (induction s) auto

lemma number_loop_Some:
  "number_loop s r k = Some (rest, r') \<Longrightarrow> k \<le> 1 \<Longrightarrow>
     \<exists>mid. s = mid @ rest \<and> list_all (\<lambda>c. isdigit c \<or> c = CHR ''.'') mid
        \<and> r' = r + int (length mid) \<and> k + int (count_list mid (CHR ''.'')) \<le> 1"
proof (induction s arbitrary: r k)
  case Nil
  then show ?case by simp
next
  case (Cons c cs)
  show ?case
  proof (cases "isspace c")
    case True
    with Cons.prems show ?thesis by simp
  next
    case False
    note nsp = this
    show ?thesis
    proof (cases "c = CHR ''.''")
      case True
      with nsp Cons.prems have k0: "k \<le> 0" and rec: "number_loop cs (r + 1) (k + 1) = Some (rest, r')"
        by (auto split: if_splits)
      from Cons.IH [OF rec] k0 obtain mid where
        "cs = mid @ rest" "list_all (\<lambda>c. isdigit c \<or> c = CHR ''.'') mid"
        "r' = r + 1 + int (length mid)" "k + 1 + int (count_list mid (CHR ''.'')) \<le> 1"
        by auto
      with True show ?thesis
        by (intro exI [of _ "c # mid"]) simp
    next
      case False
      with nsp Cons.prems have dig: "isdigit c" and rec: "number_loop cs (r + 1) k = Some (rest, r')"
        by (auto split: if_splits)
      from Cons.IH [OF rec Cons.prems(2)] obtain mid where
        "cs = mid @ rest" "list_all (\<lambda>c. isdigit c \<or> c = CHR ''.'') mid"
        "r' = r + 1 + int (length mid)" "k + int (count_list mid (CHR ''.'')) \<le> 1"
        by auto
      with False dig show ?thesis
        by (intro exI [of _ "c # mid"]) simp
    qed
  qed
qed

lemma number_loop_append:
  "list_all (\<lambda>c. isdigit c \<or> c = CHR ''.'') mid \<Longrightarrow> k + int (count_list mid (CHR ''.'')) \<le> 1
   \<Longrightarrow> list_all isspace ws \<Longrightarrow> number_loop (mid @ ws) r k = Some (ws, r + int (length mid))"
proof (induction mid arbitrary: r k)
  case Nil
  then show ?case by (cases ws) auto
next
  case (Cons c mid)
  then show ?case
    by (auto dest: isspace_not_numeral_char)
qed

lemma skip_leading_append:
  "list_all isspace ws \<Longrightarrow> mid \<noteq> [] \<Longrightarrow> \<not> isspace (hd mid) \<Longrightarrow> skip_leading (ws @ mid @ r) = mid @ r"
  by (induction ws) (auto simp: neq_Nil_conv)

text \<open>
  Claim C10. \<open>is_number\<close> holds of a token exactly when the token is white space,
  then one or more characters that are digits or \<open>.\<close>, at most one of them a \<open>.\<close>,
  then white space. So \<open>-1\<close> is no number, and a CSV column of negative numbers is
  inferred as categorical, while the token \<open>.\<close> alone is a number.
\<close>

theorem is_number_iff:
  "(is_number str \<longleftrightarrow>
     (\<exists>ws1 mid ws2. str = ws1 @ mid @ ws2 \<and> list_all isspace ws1 \<and> mid \<noteq> []
        \<and> list_all (\<lambda>c. isdigit c \<or> c = CHR ''.'') mid
        \<and> count_list mid (CHR ''.'') \<le> 1 \<and> list_all isspace ws2))
   \<and> \<not> is_number ''-1'' \<and> is_number ''.''
   \<and> infer_variables 8 ''a\<newline>-1\<newline>-2\<newline>'' =
       Returns [\<lparr>identifier = ''a'', variable_type = EXPLANATORY, data_type = CATEGORICAL,
                  size_v = 3, offset = 0\<rparr>]"
proof (intro conjI iffI)
  assume "is_number str"
  then obtain rest r' where loop: "number_loop (skip_leading str) 0 0 = Some (rest, r')"
    and tr: "trailing_loop rest" and pos: "r' > 0"
    by (auto simp: is_number_def split: option.splits if_splits)
  from number_loop_Some [OF loop] obtain mid where mid: "skip_leading str = mid @ rest"
    "list_all (\<lambda>c. isdigit c \<or> c = CHR ''.'') mid" "r' = int (length mid)"
    "int (count_list mid (CHR ''.'')) \<le> 1"
    by auto
  have "str = takeWhile isspace str @ mid @ rest"
    using mid(1) takeWhile_dropWhile_id [of isspace str] by (simp add: skip_leading_dropWhile)
  moreover have "list_all isspace (takeWhile isspace str)"
    by (simp add: list_all_iff) (meson set_takeWhileD)
  ultimately show "\<exists>ws1 mid ws2. str = ws1 @ mid @ ws2 \<and> list_all isspace ws1 \<and> mid \<noteq> []
        \<and> list_all (\<lambda>c. isdigit c \<or> c = CHR ''.'') mid
        \<and> count_list mid (CHR ''.'') \<le> 1 \<and> list_all isspace ws2"
    using mid pos tr by (intro exI [of _ "takeWhile isspace str"] exI [of _ mid] exI [of _ rest])
      (auto simp: trailing_loop_list_all)
next
  assume "\<exists>ws1 mid ws2. str = ws1 @ mid @ ws2 \<and> list_all isspace ws1 \<and> mid \<noteq> []
        \<and> list_all (\<lambda>c. isdigit c \<or> c = CHR ''.'') mid
        \<and> count_list mid (CHR ''.'') \<le> 1 \<and> list_all isspace ws2"
  then obtain ws1 mid ws2 where d: "str = ws1 @ mid @ ws2" "list_all isspace ws1" "mid \<noteq> []"
    "list_all (\<lambda>c. isdigit c \<or> c = CHR ''.'') mid" "count_list mid (CHR ''.'') \<le> 1"
    "list_all isspace ws2"
    by blast
  from d(3,4) have "\<not> isspace (hd mid)"
    by (cases mid) (auto dest: isspace_not_numeral_char)
  with d have "skip_leading str = mid @ ws2"
    by (simp add: skip_leading_append)
  moreover have "number_loop (mid @ ws2) 0 0 = Some (ws2, 0 + int (length mid))"
    using d by (intro number_loop_append) auto
  ultimately show "is_number str"
    using d by (simp add: is_number_def trailing_loop_list_all)
next
  show "\<not> is_number ''-1''"
    by (simp add: is_number_def isspace_def isdigit_def)
  show "is_number ''.''"
    by (simp add: is_number_def isspace_def isdigit_def)
  show "infer_variables 8 ''a\<newline>-1\<newline>-2\<newline>'' =
       Returns [\<lparr>identifier = ''a'', variable_type = EXPLANATORY, data_type = CATEGORICAL,
                  size_v = 3, offset = 0\<rparr>]"
    by (simp add: infer_variables_def getline_def open_istream_def read_header.simps
        scan_lines.simps scan_fields.simps stream_eof_def stream_fail_def is_number_def
        isspace_def isdigit_def)
qed

section \<open>Construction\<close>

text \<open>
  Claim C2, as stated, fails: the constructor stores the variables it is given and
  computes no offset. A single variable passed with offset 5 keeps it, while no size
  precedes it.
\<close>

theorem new_DataSet_keeps_offsets_counterexample:
  "new_DataSet [var_at_5] = Returns \<lparr>data_elements = [], data_variables = [var_at_5]\<rparr>
   \<and> offset (data_variables \<lparr>data_elements = [], data_variables = [var_at_5]\<rparr> ! 0)
       \<noteq> sum_list (map size_v
           (take 0 (data_variables \<lparr>data_elements = [], data_variables = [var_at_5]\<rparr>)))"
  by (simp add: new_DataSet_def var_at_5_def)

text \<open>
  Claim C2, amended. For every list of variables that is not empty, the data set
  constructed has no element and exactly the variables passed, each with the offset the
  caller gave it.
\<close>

theorem new_DataSet_keeps_variables:
  "vars \<noteq> [] \<Longrightarrow> new_DataSet vars = Returns \<lparr>data_elements = [], data_variables = vars\<rparr>"
  by (simp add: new_DataSet_def)

theorem new_DataSet_keeps_variables_witness:
  "[var_at_5] \<noteq> []
   \<and> new_DataSet [var_at_5] = Returns \<lparr>data_elements = [], data_variables = [var_at_5]\<rparr>"
  using new_DataSet_keeps_variables [of "[var_at_5]"] by simp

section \<open>Removing a variable\<close>

text \<open>
  Claim C1 at the data set \<open>one_row\<close>, from which \<open>a\<close> is removed. The variable \<open>b\<close>
  behind it moves to offset 0; \<open>find_if\<close> then looks for \<open>b\<close> at offset 0 among the old
  variables, where \<open>b\<close> has offset 1, finds nothing, and nothing is copied: the row held
  \<open>B\<close> for \<open>b\<close>, and holds an indeterminate byte afterwards.
\<close>

theorem remove_var_loses_following_column:
  "remove_var var_a one_row =
     Done \<lparr>data_elements = [[None]], data_variables = [var_b\<lparr>offset := 0\<rparr>]\<rparr>
   \<and> field_bytes var_b [Some (CHR ''A''), Some (CHR ''B'')] = [Some (CHR ''B'')]
   \<and> field_bytes (var_b\<lparr>offset := 0\<rparr>) [None] = [None]"
  by (simp add: example_defs remove_var_def compute_elem_size_def memcpy_def new_char_def
      field_bytes_def)

text \<open>
  A variable that is no member of the data set, under the equality of all five fields,
  is refused, and the data set is left as it was.
\<close>

lemma remove_var_absent:
  "var \<notin> set (data_variables ds) \<Longrightarrow>
     remove_var var ds = Thrown (DataException ''Variable to be removed not in data set.'') ds"
  by (simp add: remove_var_def)

text \<open>
  Claim C7 at the data set \<open>one_row\<close> and the name \<open>c\<close>, which no variable has:
  \<open>remove_var (const std::string&)\<close> dereferences the null pointer that
  \<open>get_var_by_id\<close> returns, and throws nothing.
\<close>

theorem remove_var_id_absent_undefined:
  "get_var_by_id ''c'' one_row = None \<and> remove_var_id ''c'' one_row = Undefined_effect"
  by (simp add: example_defs remove_var_id_def get_var_by_id_def)

section \<open>Indices\<close>

text \<open>
  \<open>remove_element\<close> and \<open>get_field (int)\<close> throw \<open>std::out_of_range\<close> exactly for
  an index that is negative or not below the number of elements, or of variables.
\<close>

lemma remove_element_out_of_range:
  "(\<exists>ds'. remove_element index ds = Thrown (std_out_of_range ''Element to be removed out of range.'') ds')
     \<longleftrightarrow> index < 0 \<or> int (get_num_elements ds) \<le> index"
  by (auto simp: remove_element_def get_num_elements_def)

lemma get_field_index_out_of_range:
  "get_field_index index de ds =
     Throws (std_out_of_range ''Attempted to access data element field that was out of range.'')
     \<longleftrightarrow> index < 0 \<or> int (get_num_vars ds) \<le> index"
proof -
  have "find (\<lambda>d. identifier d = map identifier vars ! k) vars \<noteq> None" if "k < length vars"
    for vars :: "DataVar list" and k
    using that by (auto simp: find_None_iff intro: nth_mem)
  then show ?thesis
    by (auto simp: get_field_index_def get_num_vars_def get_field_id_def get_var_by_id_def
          get_var_ids_def split: option.splits)
qed

text \<open>
  Claim C8 at the data set \<open>one_row\<close> and the index 1, its number of elements:
  \<open>get_element\<close> indexes the vector with no check and throws nothing.
\<close>

theorem get_element_unchecked:
  "get_num_elements one_row = 1 \<and> get_element 1 one_row = Undefined"
  by (simp add: example_defs get_element_def get_num_elements_def)

section \<open>Counting values\<close>

text \<open>For a quantitative variable the result is \<open>-1\<close>.\<close>

lemma get_possible_values_quantitative:
  "get_var_by_id name ds = Some v \<Longrightarrow> data_type v = QUANTITATIVE
     \<Longrightarrow> get_possible_values name ds = Returns (- 1)"
  by (simp add: get_possible_values_def)

text \<open>
  Claim C5 at the data set \<open>two_rows\<close>: the categorical variable \<open>a\<close> has one byte
  pattern in the two rows, and \<open>get_possible_values\<close> returns 2, the number of different
  rows, since \<open>memcmp\<close> compares the arrays from their start over the element size.
\<close>

theorem get_possible_values_counts_rows:
  "get_possible_values ''a'' two_rows = Returns 2
   \<and> card (set (map (field_bytes var_a) (data_elements two_rows))) = 1"
  by (simp add: example_defs get_possible_values_def get_var_by_id_def get_element_size_def
      compute_elem_size_def memcmp_def field_bytes_def)

section \<open>Forging a variable\<close>

text \<open>
  Claim C6, as stated, fails: a new name that is the name of a column other than the
  source is accepted. In \<open>one_row\<close> a variable named \<open>b\<close> forged from \<open>a\<close> is appended
  behind the variable \<open>b\<close> that exists.
\<close>

theorem forge_variable_duplicate_name_counterexample:
  "forge_variable 1 pointed_byte ''b'' ''a'' one_row =
     Done \<lparr>data_elements = [[Some (CHR ''A''), Some (CHR ''B''), Some (CHR ''A'')]],
           data_variables = [var_a, var_b, var_b\<lparr>offset := 2\<rparr>]\<rparr>"
  by (simp add: example_defs forge_variable_def get_var_by_id_def get_element_size_def
      compute_elem_size_def forge_element_def memcpy_def new_char_def pointed_byte_def)

text \<open>
  Claim C6, amended. \<open>forge_variable\<close> throws whenever the new name is the name of the
  source column, and then the data set is as it was: no variable appended, no row
  changed.
\<close>

theorem forge_variable_name_conflict:
  "forge_variable sizeof_T mut name name ds =
     Thrown (DataException
       ''Name for variable to be forged conflicts with original variable.'') ds"
  by (simp add: forge_variable_def)

section \<open>The length of the rows\<close>


















section \<open>Inferring the variables\<close>



text \<open>
  The rows of the scan are the lines that end with a line feed: \<open>getline\<close> sets
  \<open>eofbit\<close> on a last line without one, and \<open>while (!file.eof ())\<close> then leaves
  before the line is looked at. Without the last line feed the file above has the rows
  \<open>1\<close> and \<open>2\<close> only.
\<close>

lemma unterminated_line_not_scanned:
  "infer_variables 8 ''a\<newline>1\<newline>2\<newline>abc'' =
     Returns [\<lparr>identifier = ''a'', variable_type = EXPLANATORY, data_type = QUANTITATIVE,
                size_v = 8, offset = 0\<rparr>]"
  by (simp add: infer_variables_def getline_def open_istream_def read_header.simps
      scan_lines.simps scan_fields.simps stream_eof_def stream_fail_def is_number_def
      isspace_def isdigit_def)

section \<open>Writing a file and reading it back\<close>

text \<open>
  Claim C9, as stated, fails: a categorical field may hold a comma, which
  \<open>write_to_csv\<close> writes as it is and \<open>read_from_csv\<close> takes for a delimiter. The data
  set \<open>comma_row\<close> is written as the header \<open>w\<close> and the line \<open>x,y\<close>, and reading the
  file back with the same variables throws.
\<close>

theorem csv_round_trip_comma_counterexample:
  "write_to_csv 8 no_shift_out True comma_row = Returns ''w\<newline>x,y\<newline>''
   \<and> read_from_csv_template 8 no_stod_cast (Some ''w\<newline>x,y\<newline>'')
         (data_variables comma_row) True
       = Throws (DataIOException ''Inconsistent file format (too many fields).'')"
  by (simp add: comma_row_def var_w_def write_to_csv_def write_field_def read_bytes_def
      get_field_var_def read_from_csv_template_def new_DataSet_def getline_def open_istream_def
      get_element_size_def compute_elem_size_def read_rows.simps read_fields.simps
      stream_eof_def stream_fail_def memcpy_def new_char_def)

subsection \<open>Streams and sizes\<close>

lemma split_at_delim:
  "delim \<notin> set l \<Longrightarrow>
     dropWhile (\<lambda>c. c \<noteq> delim) (l @ delim # rest) = delim # rest
     \<and> takeWhile (\<lambda>c. c \<noteq> delim) (l @ delim # rest) = l"
  by (induction l) auto

lemma no_delim:
  "delim \<notin> set l \<Longrightarrow> dropWhile (\<lambda>c. c \<noteq> delim) l = []"
  by (induction l) auto

lemma getline_delimited:
  "delim \<notin> set l \<Longrightarrow>
     getline \<lparr>unread = l @ delim # rest, state = goodbit\<rparr> str delim
       = (\<lparr>unread = rest, state = goodbit\<rparr>, l)"
  by (simp add: getline_def split_at_delim)

lemma getline_to_end:
  "delim \<notin> set l \<Longrightarrow> l \<noteq> [] \<Longrightarrow>
     getline \<lparr>unread = l, state = goodbit\<rparr> str delim = (\<lparr>unread = [], state = eofbit\<rparr>, l)"
  by (simp add: getline_def no_delim)

lemma getline_at_end:
  "getline \<lparr>unread = [], state = goodbit\<rparr> str delim = (\<lparr>unread = [], state = eof_failbit\<rparr>, [])"
  by (simp add: getline_def)

lemma getline_after_end:
  "getline \<lparr>unread = u, state = eofbit\<rparr> str delim = (\<lparr>unread = u, state = eof_failbit\<rparr>, str)"
  by (simp add: getline_def)

lemma foldl_sizes:
  "foldl (\<lambda>sum var. sum + size_v var) a vars = a + sum_list (map size_v vars)"
  by (induction vars arbitrary: a) (auto simp: add.assoc)

lemma unat_sum_sizes:
  "sum_list (map (\<lambda>v. unat (size_v v)) vars) < 2 ^ 64 \<Longrightarrow>
     unat (sum_list (map size_v vars)) = sum_list (map (\<lambda>v. unat (size_v v)) vars)"
proof (induction vars)
  case Nil
  then show ?case by simp
next
  case (Cons v vars)
  then have "unat (sum_list (map size_v vars)) = sum_list (map (\<lambda>v. unat (size_v v)) vars)"
    by simp
  with Cons.prems show ?case
    by (simp add: unat_word_ariths)
qed

lemma unat_compute_elem_size:
  "row_width vars < 2 ^ 64 \<Longrightarrow> unat (compute_elem_size vars) = row_width vars"
  by (simp add: compute_elem_size_def foldl_sizes row_width_def unat_sum_sizes)

subsection \<open>Reading one row\<close>

lemma getline_rest_stream:
  assumes "CHR '','' \<notin> set t" and "ts = [] \<Longrightarrow> t \<noteq> []"
  shows "getline \<lparr>unread = join_fields (t # ts), state = goodbit\<rparr> str (CHR '','')
           = (rest_stream ts, t)"
proof (cases ts)
  case Nil
  with assms show ?thesis by (simp add: getline_to_end rest_stream_def)
next
  case (Cons u us)
  with assms(1) show ?thesis by (simp add: getline_delimited rest_stream_def)
qed

lemma map_Some_the: "list_all (\<lambda>x. x \<noteq> None) xs \<Longrightarrow> map Some (map the xs) = xs"
  by (induction xs) auto

lemma list_all_take_drop': "list_all P xs \<Longrightarrow> list_all P (take n (drop k xs))"
  by (auto simp: list_all_iff dest: in_set_takeD in_set_dropD)

lemma memcpy_field:
  assumes det: "list_all (\<lambda>x. x \<noteq> None) de" and fits: "k + s \<le> length de"
    and src: "take s src = map Some (map the (take s (drop k de)))" and len: "s \<le> length src"
  shows "memcpy (take k de @ replicate (length de - k) None) k src 0 s
           = Some (take (k + s) de @ replicate (length de - (k + s)) None)"
proof -
  have "take s src = take s (drop k de)"
    by (simp only: src map_Some_the [OF list_all_take_drop' [OF det]])
  moreover have "take (k + s) de = take k de @ take s (drop k de)"
    by (simp add: take_add)
  moreover have "k \<le> length de"
    using fits by simp
  ultimately show ?thesis
    using fits len by (simp add: memcpy_def)
qed

lemma write_field_categorical:
  assumes "data_type v \<noteq> QUANTITATIVE" and "write_field q sh de v = Some dat"
  shows "dat = map the (take (unat (size_v v)) (drop (unat (offset v)) de))
         \<and> unat (offset v) + unat (size_v v) \<le> length de"
  using assms
  by (auto simp: write_field_def read_bytes_def get_field_var_def split: if_splits)

lemma read_fields_row:
  assumes det: "list_all (\<lambda>x. x \<noteq> None) de"
  shows "fields_round_trip q sh st de vs \<Longrightarrow> packed_from k vs \<Longrightarrow> k + row_width vs = length de
     \<Longrightarrow> vars = pre @ vs \<Longrightarrow>
     \<exists>line'. read_fields q st vars (rest_stream (field_texts q sh de vs)) line (int (length pre))
               (take k de @ replicate (length de - k) None)
             = Returns (int (length vars), de, line')"
proof (induction vs arbitrary: k pre line)
  case Nil
  then show ?case
    by (simp add: read_fields.simps [of _ _ _ "\<lparr>unread = [], state = eofbit\<rparr>"]
        rest_stream_def field_texts_def getline_after_end stream_fail_def row_width_def)
next
  case (Cons v vs)
  let ?s = "unat (size_v v)"
  let ?data = "take k de @ replicate (length de - k) None"
  let ?next = "take (k + ?s) de @ replicate (length de - (k + ?s)) None"
  from Cons.prems(1) obtain dat where
    wf: "write_field q sh de v = Some dat" and
    nc: "CHR '','' \<notin> set dat" and
    ne: "vs = [] \<Longrightarrow> dat \<noteq> []" and
    qu: "data_type v = QUANTITATIVE \<Longrightarrow>
           size_v v = q \<and> st dat = Returns (map the (field_bytes v de))" and
    rest: "fields_round_trip q sh st de vs"
    by (auto simp: field_round_trips_def split: option.splits)
  from Cons.prems(2) have off: "unat (offset v) = k" and pk: "packed_from (k + ?s) vs"
    by simp_all
  from Cons.prems(3) have fits: "k + ?s \<le> length de" and w: "k + ?s + row_width vs = length de"
    by (simp_all add: row_width_def)
  have texts: "field_texts q sh de (v # vs) = dat # field_texts q sh de vs"
    using wf by (simp add: field_texts_def)
  have "field_texts q sh de vs = [] \<Longrightarrow> dat \<noteq> []"
    using ne by (simp add: field_texts_def)
  from getline_rest_stream [OF nc this]
  have gl: "getline (rest_stream (field_texts q sh de (v # vs))) line (CHR '','')
          = (rest_stream (field_texts q sh de vs), dat)"
    by (simp add: texts rest_stream_def)
  have nf: "\<not> stream_fail (rest_stream (field_texts q sh de vs))"
    by (simp add: stream_fail_def rest_stream_def)
  have idx: "\<not> length vars \<le> length pre" "vars ! length pre = v"
    using Cons.prems(4) by simp_all
  have step: "vars = (pre @ [v]) @ vs"
    using Cons.prems(4) by simp
  show ?case
  proof (cases "data_type v = QUANTITATIVE")
    case True
    with qu have sz: "size_v v = q" and st: "st dat = Returns (map the (field_bytes v de))"
      by simp_all
    have mc: "memcpy ?data k (map Some (map the (field_bytes v de))) 0 ?s = Some ?next"
      using det fits off by (intro memcpy_field) (simp_all add: field_bytes_def)
    have "read_fields q st vars (rest_stream (field_texts q sh de (v # vs))) line
            (int (length pre)) ?data
          = read_fields q st vars (rest_stream (field_texts q sh de vs)) dat
            (int (length (pre @ [v]))) ?next"
      using mc by (subst read_fields.simps) (simp add: gl nf idx True sz st off ac_simps)
    with Cons.IH [OF rest pk w step, of dat] show ?thesis
      by simp
  next
    case False
    from write_field_categorical [OF False wf] off
    have dat: "dat = map the (take ?s (drop k de))" by simp
    then have len: "length dat = ?s" using fits by simp
    have mc: "memcpy ?data k (map Some (dat @ replicate (?s - length dat) (CHR 0x00) @ [CHR 0x00])) 0 ?s
            = Some ?next"
      using det fits len by (intro memcpy_field) (simp_all add: dat)
    have "read_fields q st vars (rest_stream (field_texts q sh de (v # vs))) line
            (int (length pre)) ?data
          = read_fields q st vars (rest_stream (field_texts q sh de vs))
            (dat @ replicate (?s - length dat) (CHR 0x00))
            (int (length (pre @ [v]))) ?next"
      using mc by (subst read_fields.simps) (simp add: gl nf idx False off ac_simps)
    with Cons.IH [OF rest pk w step, of "dat @ replicate (?s - length dat) (CHR 0x00)"]
    show ?thesis
      by simp
  qed
qed

lemma field_texts_Cons:
  "write_field q sh de v = Some dat \<Longrightarrow>
     field_texts q sh de (v # vs) = dat # field_texts q sh de vs"
  by (simp add: field_texts_def)

lemma field_texts_Nil_iff: "field_texts q sh de vs = [] \<longleftrightarrow> vs = []"
  by (simp add: field_texts_def)

lemma join_fields_Cons:
  "ts \<noteq> [] \<Longrightarrow> join_fields (t # ts) = t @ CHR '','' # join_fields ts"
  by (cases ts) simp_all

lemma write_fields_text:
  "fields_round_trip q sh st de vs \<Longrightarrow> vs \<noteq> [] \<Longrightarrow>
     write_fields q sh de vs = Some (join_fields (field_texts q sh de vs) @ [CHR 0x0A])"
proof (induction vs)
  case Nil
  then show ?case by simp
next
  case (Cons v vs)
  from Cons.prems(1) obtain dat where wf: "write_field q sh de v = Some dat"
    and rest: "fields_round_trip q sh st de vs"
    by (auto simp: field_round_trips_def split: option.splits)
  show ?case
  proof (cases "vs = []")
    case True
    with wf show ?thesis by (simp add: field_texts_def)
  next
    case False
    with Cons.IH [OF rest] wf show ?thesis
      by (simp add: field_texts_Cons join_fields_Cons field_texts_Nil_iff)
  qed
qed

lemma row_line_no_newline:
  "fields_round_trip q sh st de vs \<Longrightarrow> CHR 0x0A \<notin> set (join_fields (field_texts q sh de vs))"
proof (induction vs)
  case Nil
  then show ?case by (simp add: field_texts_def)
next
  case (Cons v vs)
  from Cons.prems(1) obtain dat where wf: "write_field q sh de v = Some dat"
    and nl: "CHR 0x0A \<notin> set dat"
    and rest: "fields_round_trip q sh st de vs"
    by (auto simp: field_round_trips_def split: option.splits)
  show ?case
  proof (cases "vs = []")
    case True
    with wf nl show ?thesis by (simp add: field_texts_def)
  next
    case False
    with Cons.IH [OF rest] wf nl show ?thesis
      by (simp add: field_texts_Cons join_fields_Cons field_texts_Nil_iff)
  qed
qed

lemma write_elements_text:
  "list_all (\<lambda>de. fields_round_trip q sh st de vars) es \<Longrightarrow> vars \<noteq> [] \<Longrightarrow>
     write_elements q sh vars es
       = Some (concat (map (\<lambda>de. row_line q sh vars de @ [CHR 0x0A]) es))"
proof (induction es)
  case Nil
  then show ?case by simp
next
  case (Cons de es)
  then have "fields_round_trip q sh st de vars" by simp
  from write_fields_text [OF this Cons.prems(2)] Cons show ?case
    by (simp add: row_line_def)
qed

lemma read_one_row:
  assumes det: "list_all (\<lambda>x. x \<noteq> None) de" and len: "length de = row_width vars"
    and pk: "packed vars" and rt: "fields_round_trip q sh st de vars" and ne: "vars \<noteq> []"
  shows "\<exists>line'. read_fields q st vars (open_istream (row_line q sh vars de)) line 0
                  (new_char (unat (compute_elem_size vars)))
               = Returns (int (length vars), de, line')"
proof -
  from pk have p0: "packed_from 0 vars" and w: "row_width vars < 2 ^ 64"
    by (simp_all add: packed_def)
  have "\<exists>line'. read_fields q st vars (rest_stream (field_texts q sh de vars)) line
            (int (length ([] :: DataVar list))) (take 0 de @ replicate (length de - 0) None)
          = Returns (int (length vars), de, line')"
    using det rt p0 by (rule read_fields_row) (simp_all add: len)
  moreover have "rest_stream (field_texts q sh de vars) = open_istream (row_line q sh vars de)"
    using ne by (simp add: rest_stream_def open_istream_def row_line_def field_texts_Nil_iff)
  moreover have "new_char (unat (compute_elem_size vars)) = replicate (length de) None"
    using w by (simp add: unat_compute_elem_size new_char_def len)
  ultimately show ?thesis by simp
qed

lemma append_row:
  "length de = unat (get_element_size ds) \<Longrightarrow>
     append_element de ds = Done (ds\<lparr>data_elements := data_elements ds @ [de]\<rparr>)"
  by (simp add: append_element_def new_DataElement_def memcpy_def new_char_def)

subsection \<open>Reading all rows\<close>

lemma read_rows_at_end:
  "read_rows q st vars sz \<lparr>unread = [], state = eof_failbit\<rparr> line ds = Returns ds"
  by (simp add: read_rows.simps stream_eof_def)

lemma read_rows_body:
  assumes ne: "vars \<noteq> []" and pk: "packed vars"
  shows "list_all (\<lambda>de. length de = row_width vars \<and> list_all (\<lambda>x. x \<noteq> None) de
                     \<and> fields_round_trip q sh st de vars) (de # es)
     \<Longrightarrow> data_variables acc = vars
     \<Longrightarrow> read_rows q st vars (compute_elem_size vars)
           \<lparr>unread = concat (map (\<lambda>d. row_line q sh vars d @ [CHR 0x0A]) es), state = goodbit\<rparr>
           (row_line q sh vars de) acc
         = Returns (acc\<lparr>data_elements := data_elements acc @ de # es\<rparr>)"
proof (induction es arbitrary: de acc)
  case Nil
  then have det: "list_all (\<lambda>x. x \<noteq> None) de" and len: "length de = row_width vars"
    and rt: "fields_round_trip q sh st de vars"
    by simp_all
  from read_one_row [OF det len pk rt ne, of "row_line q sh vars de"]
  obtain line' where rf: "read_fields q st vars (open_istream (row_line q sh vars de))
      (row_line q sh vars de) 0 (new_char (unat (compute_elem_size vars)))
      = Returns (int (length vars), de, line')"
    by blast
  from pk have "unat (compute_elem_size vars) = row_width vars"
    by (simp add: packed_def unat_compute_elem_size)
  with len Nil.prems(2) have "length de = unat (get_element_size acc)"
    by (simp add: get_element_size_def)
  from append_row [OF this] rf show ?case
    by (subst read_rows.simps) (simp add: stream_eof_def getline_at_end read_rows_at_end)
next
  case (Cons e es)
  then have det: "list_all (\<lambda>x. x \<noteq> None) de" and len: "length de = row_width vars"
    and rt: "fields_round_trip q sh st de vars"
    and rest: "list_all (\<lambda>de. length de = row_width vars \<and> list_all (\<lambda>x. x \<noteq> None) de
                     \<and> fields_round_trip q sh st de vars) (e # es)"
    by simp_all
  from rest have "fields_round_trip q sh st e vars" by simp
  then have nl: "CHR 0x0A \<notin> set (row_line q sh vars e)"
    by (simp add: row_line_def row_line_no_newline)
  from read_one_row [OF det len pk rt ne, of "row_line q sh vars de"]
  obtain line' where rf: "read_fields q st vars (open_istream (row_line q sh vars de))
      (row_line q sh vars de) 0 (new_char (unat (compute_elem_size vars)))
      = Returns (int (length vars), de, line')"
    by blast
  from pk have "unat (compute_elem_size vars) = row_width vars"
    by (simp add: packed_def unat_compute_elem_size)
  with len Cons.prems(2) have "length de = unat (get_element_size acc)"
    by (simp add: get_element_size_def)
  note ap = append_row [OF this]
  have "data_variables (acc\<lparr>data_elements := data_elements acc @ [de]\<rparr>) = vars"
    using Cons.prems(2) by simp
  from Cons.IH [OF rest this] ap rf show ?case
    by (subst read_rows.simps) (simp add: stream_eof_def getline_delimited [OF nl])
qed

lemma write_header_line:
  "names_on_one_line vars \<Longrightarrow> vars \<noteq> [] \<Longrightarrow>
     \<exists>h. write_header vars = h @ [CHR 0x0A] \<and> CHR 0x0A \<notin> set h"
proof (induction vars)
  case Nil
  then show ?case by simp
next
  case (Cons v vars)
  show ?case
  proof (cases "vars = []")
    case True
    with Cons.prems show ?thesis by (simp add: names_on_one_line_def)
  next
    case False
    with Cons obtain h where "write_header vars = h @ [CHR 0x0A]" "CHR 0x0A \<notin> set h"
      by (auto simp: names_on_one_line_def)
    with False Cons.prems(1) show ?thesis
      by (intro exI [of _ "identifier v @ CHR '','' # h"]) (simp add: names_on_one_line_def)
  qed
qed

text \<open>
  Claim C9, amended. Let the variables of a data set be packed and not empty, no
  identifier hold a line feed, every row have the row width with all bytes written,
  and the text written for every field hold no comma and no line feed, be not empty
  in the last column and, for a quantitative field, be converted back to the bytes of
  the field. Then \<open>write_to_csv\<close> returns a file from which \<open>read_from_csv\<close> with the
  same variables returns the data set: the same rows, byte for byte.
\<close>

theorem csv_round_trip:
  assumes ne: "data_variables ds \<noteq> []"
    and pk: "packed (data_variables ds)"
    and names: "names_on_one_line (data_variables ds)"
    and rows: "rows_written ds"
    and texts: "text_round_trips sizeof_Q shift_out stod_cast ds"
  shows "\<exists>content. write_to_csv sizeof_Q shift_out True ds = Returns content
           \<and> read_from_csv_template sizeof_Q stod_cast (Some content) (data_variables ds) True
               = Returns ds"
proof -
  let ?vars = "data_variables ds"
  let ?body = "concat (map (\<lambda>de. row_line sizeof_Q shift_out ?vars de @ [CHR 0x0A])
                 (data_elements ds))"
  from write_header_line [OF names ne] obtain h where
    h: "write_header ?vars = h @ [CHR 0x0A]" and hn: "CHR 0x0A \<notin> set h"
    by blast
  from texts have "list_all (\<lambda>de. fields_round_trip sizeof_Q shift_out stod_cast de ?vars)
      (data_elements ds)"
    by (simp add: text_round_trips_def)
  from write_elements_text [OF this ne]
  have written: "write_to_csv sizeof_Q shift_out True ds = Returns (h @ CHR 0x0A # ?body)"
    by (simp add: write_to_csv_def h)
  have all: "list_all (\<lambda>de. length de = row_width ?vars \<and> list_all (\<lambda>x. x \<noteq> None) de
                     \<and> fields_round_trip sizeof_Q shift_out stod_cast de ?vars) (data_elements ds)"
    using rows texts by (simp add: rows_written_def text_round_trips_def list_all_iff)
  have "read_rows sizeof_Q stod_cast ?vars (compute_elem_size ?vars)
          (fst (getline \<lparr>unread = ?body, state = goodbit\<rparr> [] (CHR 0x0A)))
          (snd (getline \<lparr>unread = ?body, state = goodbit\<rparr> [] (CHR 0x0A)))
          \<lparr>data_elements = [], data_variables = ?vars\<rparr>
        = Returns ds"
  proof (cases "data_elements ds")
    case Nil
    then show ?thesis
      by (simp add: getline_at_end read_rows_at_end)
  next
    case (Cons de es)
    with all have "fields_round_trip sizeof_Q shift_out stod_cast de ?vars" by simp
    then have nl: "CHR 0x0A \<notin> set (row_line sizeof_Q shift_out ?vars de)"
      by (simp add: row_line_def row_line_no_newline)
    from all Cons
    have "read_rows sizeof_Q stod_cast ?vars (compute_elem_size ?vars)
           \<lparr>unread = concat (map (\<lambda>d. row_line sizeof_Q shift_out ?vars d @ [CHR 0x0A]) es),
             state = goodbit\<rparr>
           (row_line sizeof_Q shift_out ?vars de) \<lparr>data_elements = [], data_variables = ?vars\<rparr>
         = Returns (\<lparr>data_elements = [], data_variables = ?vars\<rparr>
             \<lparr>data_elements := data_elements \<lparr>data_elements = [], data_variables = ?vars\<rparr> @ de # es\<rparr>)"
      by (intro read_rows_body [OF ne pk]) simp_all
    with Cons show ?thesis
      by (simp add: getline_delimited [OF nl])
  qed
  then have "read_from_csv_template sizeof_Q stod_cast (Some (h @ CHR 0x0A # ?body)) ?vars True
      = Returns ds"
    using ne by (simp add: read_from_csv_template_def open_istream_def getline_delimited [OF hn]
        new_DataSet_def get_element_size_def split_beta)
  with written show ?thesis by blast
qed

theorem csv_round_trip_witness:
  "data_variables two_rows \<noteq> []
   \<and> packed (data_variables two_rows)
   \<and> names_on_one_line (data_variables two_rows)
   \<and> rows_written two_rows
   \<and> text_round_trips 8 no_shift_out no_stod_cast two_rows
   \<and> write_to_csv 8 no_shift_out True two_rows = Returns ''a,b\<newline>x,1\<newline>x,2\<newline>''
   \<and> read_from_csv_template 8 no_stod_cast (Some ''a,b\<newline>x,1\<newline>x,2\<newline>'')
         (data_variables two_rows) True
       = Returns two_rows"
proof -
  have ne: "data_variables two_rows \<noteq> []"
    by (simp add: example_defs)
  have pk: "packed (data_variables two_rows)"
    by (simp add: example_defs packed_def row_width_def)
  have names: "names_on_one_line (data_variables two_rows)"
    by (simp add: example_defs names_on_one_line_def)
  have rows: "rows_written two_rows"
    by (simp add: example_defs rows_written_def row_width_def)
  have texts: "text_round_trips 8 no_shift_out no_stod_cast two_rows"
    by (simp add: example_defs text_round_trips_def field_round_trips_def write_field_def
        read_bytes_def get_field_var_def)
  have written: "write_to_csv 8 no_shift_out True two_rows
      = Returns ''a,b\<newline>x,1\<newline>x,2\<newline>''"
    by (simp add: example_defs write_to_csv_def write_field_def read_bytes_def
        get_field_var_def)
  from csv_round_trip [OF ne pk names rows texts] written
  have "read_from_csv_template 8 no_stod_cast (Some ''a,b\<newline>x,1\<newline>x,2\<newline>'')
         (data_variables two_rows) True = Returns two_rows"
    by auto
  with ne pk names rows texts written show ?thesis
    by simp
qed

end
